theory Spec2Isabelle
  imports
    Complex_Main
    "HOL-Library.Char_ord"
    "HOL-Library.List_Lexorder"
    "HOL-Library.Log_Nat"
    "HOL-Library.Product_Lexorder"
begin

section \<open>Values and strings\<close>

text \<open>
  A cell of a text column of the input table is a Python \<open>str\<close> or the missing value
  (the float NaN that the CSV reader puts where a field is empty). A string is a list of
  characters; a character stands for the code point of the same number, so the model
  covers the code points below 256. Strings are compared as Python compares them:
  lexicographically by code point.
\<close>

datatype cell = Str string | NaN

definition isspace :: "char \<Rightarrow> bool" where
  \<comment> \<open>the code points below 256 that \<open>str.strip()\<close> removes\<close>
  "isspace c = (let n = (of_char c :: nat) in
     (9 \<le> n \<and> n \<le> 13) \<or> (28 \<le> n \<and> n \<le> 32) \<or> n = 133 \<or> n = 160)"

definition strip :: "string \<Rightarrow> string" where
  "strip s = rev (dropWhile isspace (rev (dropWhile isspace s)))"

definition lower_char :: "char \<Rightarrow> char" where
  "lower_char c = (let n = (of_char c :: nat) in
     if (65 \<le> n \<and> n \<le> 90) \<or> (192 \<le> n \<and> n \<le> 222 \<and> n \<noteq> 215)
     then char_of (n + 32) else c)"

definition lower :: "string \<Rightarrow> string" where
  "lower s = map lower_char s"

fun str_split :: "char \<Rightarrow> string \<Rightarrow> string list" where
  "str_split sep [] = [[]]"
| "str_split sep (c # cs) =
     (if c = sep then [] # str_split sep cs
      else (case str_split sep cs of
              p # ps \<Rightarrow> (c # p) # ps
            | [] \<Rightarrow> [[c]]))"

definition astype_str :: "cell \<Rightarrow> string" where
  \<comment> \<open>\<open>Series.astype(str)\<close> on one cell of an object column, as pandas 1 and 2
      do it: \<open>str(x)\<close>, so the missing value becomes the text \<open>nan\<close>\<close>
  "astype_str x = (case x of Str s \<Rightarrow> s | NaN \<Rightarrow> ''nan'')"

section \<open>Binary floating point\<close>

text \<open>
  The program holds shares and the threshold as float64 values. A float64 value is
  modelled by the rational number it denotes, and \<open>float64 x\<close> is the value nearest to
  \<open>x\<close> among those with 53 significant bits, with ties going to the even significand:
  what a literal denotes and what a division of two integers below \<open>2 ^ 53\<close> returns.
  The exponent is not bounded; quotients of row counts are far from the limits of the
  format.
\<close>

definition round_half_even :: "rat \<Rightarrow> int" where
  "round_half_even y =
     (let f = \<lfloor>y\<rfloor>; r = y - of_int f
      in if r < 1 / 2 then f else if 1 / 2 < r then f + 1 else if even f then f else f + 1)"

text \<open>The exponent \<open>e\<close> of a positive number \<open>x\<close>: \<open>2 powi e \<le> x < 2 powi (e + 1)\<close>.\<close>

definition binade :: "rat \<Rightarrow> int" where
  "binade x =
     (let d = bitlen (fst (quotient_of x)) - bitlen (snd (quotient_of x))
      in if 2 powi d \<le> x then d else d - 1)"

definition float64 :: "rat \<Rightarrow> rat" where
  "float64 x =
     (if x = 0 then 0
      else (let u = 2 powi (binade \<bar>x\<bar> - 52)
            in sgn x * of_int (round_half_even (\<bar>x\<bar> / u)) * u))"

section \<open>Domain extractor\<close>

definition extract_domain :: "cell \<Rightarrow> string option" where
  "extract_domain email =
     (case email of
        NaN \<Rightarrow> None
      | Str s \<Rightarrow>
          if CHR ''@'' \<notin> set s then None
          else Some (lower (strip (last (str_split (CHR ''@'') s)))))"

section \<open>Frames\<close>

text \<open>
  A row of the input table has the two columns the program reads; the record's
  extension slot carries the other columns, which no function looks at. Each stage of
  \<open>mark_suspects\<close> adds columns, so each stage's row type extends the one before.
  A missing value of a derived column (\<open>None\<close> or NaN in the frame) is \<open>None\<close>.
  The input table is taken to have none of the columns that \<open>mark_suspects\<close> adds.
\<close>

record contact =
  Email :: cell
  Company_Name :: cell

record derived = contact +
  domain :: "string option"
  company_clean :: string
  company_norm :: string

record with_dominant = derived +
  dominant_company :: "string option"
  dominant_share :: "rat option"

record with_canonical = with_dominant +
  canonical_company :: "string option"

datatype reason =
    Differs_from_dominant string string rat
  | Not_in_prospects
  | Appears_once
  | Differs_from_canonical string

record marked = with_canonical +
  is_suspect :: bool
  suspect_reasons :: "reason list"
  suggested_company :: "string option"

text \<open>
  \<open>groupby(keys).size().reset_index(name="count")\<close>: rows whose key has a missing
  component are dropped, and the result has one row per distinct key, in ascending order
  of the key, with the number of rows that carry it.
\<close>

definition dropna :: "'k option list \<Rightarrow> 'k list" where
  "dropna keys = map the (filter (\<lambda>k. k \<noteq> None) keys)"

definition groupby_size :: "('k::linorder) option list \<Rightarrow> ('k \<times> nat) list" where
  "groupby_size keys =
     (let present = dropna keys
      in map (\<lambda>k. (k, count_list present k)) (sort (remdups present)))"

text \<open>\<open>drop_duplicates(col)\<close> keeps, for each value of the column, the first row that has it.\<close>

fun drop_duplicates :: "('a \<Rightarrow> 'k) \<Rightarrow> 'a list \<Rightarrow> 'a list" where
  "drop_duplicates f [] = []"
| "drop_duplicates f (x # xs) = x # drop_duplicates f (filter (\<lambda>y. f y \<noteq> f x) xs)"

text \<open>
  \<open>left.merge(right, on=key, how="left")\<close>: the rows of the left frame in their order,
  each joined with every right row of the same key, in the right frame's order, or with
  missing values when there is none.
\<close>

definition merge_left ::
  "('l \<Rightarrow> 'k option) \<Rightarrow> ('r \<Rightarrow> 'k) \<Rightarrow> ('l \<Rightarrow> 'r option \<Rightarrow> 'o) \<Rightarrow> 'l list \<Rightarrow> 'r list \<Rightarrow> 'o list" where
  "merge_left lkey rkey join left right =
     concat (map (\<lambda>l. case filter (\<lambda>r. Some (rkey r) = lkey l) right of
                          [] \<Rightarrow> [join l None]
                        | ms \<Rightarrow> map (\<lambda>r. join l (Some r)) ms) left)"

section \<open>Dominant company per domain\<close>

text \<open>
  A share is the float64 quotient of two row counts, as the division of the two integer
  columns returns it.
\<close>

record stat =
  stat_domain :: string
  stat_company :: string
  stat_count :: nat
  total_domain :: nat
  share :: rat

definition domain_key :: "'a derived_scheme \<Rightarrow> (string \<times> string) option" where
  \<comment> \<open>the group key \<open>["domain", "Company Name"]\<close> of a row\<close>
  "domain_key r =
     (case domain r of
        None \<Rightarrow> None
      | Some d \<Rightarrow> (case Company_Name r of NaN \<Rightarrow> None | Str c \<Rightarrow> Some (d, c)))"

definition domain_stats :: "'a derived_scheme list \<Rightarrow> stat list" where
  "domain_stats df =
     (let stats = groupby_size (map domain_key df);
          total_per_domain = (\<lambda>d. sum_list (map snd (filter (\<lambda>g. fst (fst g) = d) stats)))
      in map (\<lambda>g. \<lparr>stat_domain = fst (fst g), stat_company = snd (fst g), stat_count = snd g,
                     total_domain = total_per_domain (fst (fst g)),
                     share = float64 (of_nat (snd g) / of_nat (total_per_domain (fst (fst g))))\<rparr>)
            stats)"

definition find_dominant_company_per_domain ::
  "'a derived_scheme list \<Rightarrow> (string \<times> string \<times> rat) list" where
  "find_dominant_company_per_domain df =
     map (\<lambda>s. (stat_domain s, stat_company s, share s))
       (drop_duplicates stat_domain
          (sort_key (\<lambda>s. (stat_domain s, - int (stat_count s))) (domain_stats df)))"

section \<open>Canonical company name\<close>

definition name_stats :: "'a contact_scheme list \<Rightarrow> ((string \<times> string) \<times> nat) list" where
  "name_stats df =
     (let temp = map (\<lambda>r. strip (astype_str (Company_Name r))) df
      in groupby_size (map (\<lambda>c. Some (lower c, c)) temp))"

definition find_canonical_company_by_name :: "'a contact_scheme list \<Rightarrow> (string \<times> string) list" where
  "find_canonical_company_by_name df =
     map fst
       (drop_duplicates (\<lambda>g. fst (fst g))
          (sort_key (\<lambda>g. (fst (fst g), - int (snd g))) (name_stats df)))"

section \<open>Suspect classifier\<close>

definition DOMINANT_MIN_SHARE :: rat where
  \<comment> \<open>the float64 value of the literal \<open>0.6\<close>\<close>
  "DOMINANT_MIN_SHARE = float64 (6 / 10)"

text \<open>
  The three variables of the loop body. A reason is kept as the data its message is
  formatted from; the column \<open>suspect_reasons\<close> holds the messages joined by a
  separator, and is the empty text exactly when there is no reason.
\<close>

record verdict =
  flagged :: bool
  reasons :: "reason list"
  suggest :: "string option"

definition check_dominant :: "'a with_canonical_scheme \<Rightarrow> verdict \<Rightarrow> verdict" where
  "check_dominant row v =
     (case domain row of
        None \<Rightarrow> v
      | Some d \<Rightarrow>
          (case dominant_company row of
             None \<Rightarrow> v
           | Some dc \<Rightarrow>
               (case dominant_share row of
                  None \<Rightarrow> v
                | Some sh \<Rightarrow>
                    if company_clean row \<noteq> dc \<and> DOMINANT_MIN_SHARE \<le> sh
                    then \<lparr>flagged = True,
                          reasons = reasons v @ [Differs_from_dominant d dc sh],
                          suggest = Some dc\<rparr>
                    else v)))"

definition check_prospects :: "string set \<Rightarrow> 'a with_canonical_scheme \<Rightarrow> verdict \<Rightarrow> verdict" where
  "check_prospects prospect_companies row v =
     (if prospect_companies \<noteq> {} then
        (if company_clean row \<notin> prospect_companies
         then v\<lparr>flagged := True, reasons := reasons v @ [Not_in_prospects]\<rparr>
         else v)
      else v)"

definition check_singleton :: "(string \<Rightarrow> nat) \<Rightarrow> 'a with_canonical_scheme \<Rightarrow> verdict \<Rightarrow> verdict" where
  "check_singleton company_counts row v =
     (if company_counts (company_clean row) = 1
      then v\<lparr>flagged := True, reasons := reasons v @ [Appears_once]\<rparr>
      else v)"

definition check_canonical :: "'a with_canonical_scheme \<Rightarrow> verdict \<Rightarrow> verdict" where
  "check_canonical row v =
     (case canonical_company row of
        None \<Rightarrow> v
      | Some cc \<Rightarrow>
          if company_clean row \<noteq> cc
          then \<lparr>flagged = True,
                reasons = reasons v @ [Differs_from_canonical cc],
                suggest = (case suggest v of None \<Rightarrow> Some cc | Some s \<Rightarrow> Some s)\<rparr>
          else v)"

definition classify :: "string set \<Rightarrow> (string \<Rightarrow> nat) \<Rightarrow> 'a with_canonical_scheme \<Rightarrow> verdict" where
  "classify prospect_companies company_counts row =
     check_canonical row
       (check_singleton company_counts row
          (check_prospects prospect_companies row
             (check_dominant row \<lparr>flagged = False, reasons = [], suggest = None\<rparr>)))"

definition derive :: "'a contact_scheme \<Rightarrow> 'a derived_scheme" where
  "derive r =
     \<lparr>Email = Email r, Company_Name = Company_Name r,
      domain = extract_domain (Email r),
      company_clean = strip (astype_str (Company_Name r)),
      company_norm = lower (strip (astype_str (Company_Name r))),
      \<dots> = contact.more r\<rparr>"

definition add_dominant ::
  "'a derived_scheme \<Rightarrow> (string \<times> string \<times> rat) option \<Rightarrow> 'a with_dominant_scheme" where
  "add_dominant r a =
     \<lparr>Email = Email r, Company_Name = Company_Name r,
      domain = domain r, company_clean = company_clean r, company_norm = company_norm r,
      dominant_company = map_option (\<lambda>a. fst (snd a)) a,
      dominant_share = map_option (\<lambda>a. snd (snd a)) a,
      \<dots> = derived.more r\<rparr>"

definition add_canonical ::
  "'a with_dominant_scheme \<Rightarrow> (string \<times> string) option \<Rightarrow> 'a with_canonical_scheme" where
  "add_canonical r a =
     \<lparr>Email = Email r, Company_Name = Company_Name r,
      domain = domain r, company_clean = company_clean r, company_norm = company_norm r,
      dominant_company = dominant_company r, dominant_share = dominant_share r,
      canonical_company = map_option snd a,
      \<dots> = with_dominant.more r\<rparr>"

definition add_verdict :: "'a with_canonical_scheme \<Rightarrow> verdict \<Rightarrow> 'a marked_scheme" where
  "add_verdict r v =
     \<lparr>Email = Email r, Company_Name = Company_Name r,
      domain = domain r, company_clean = company_clean r, company_norm = company_norm r,
      dominant_company = dominant_company r, dominant_share = dominant_share r,
      canonical_company = canonical_company r,
      is_suspect = flagged v, suspect_reasons = reasons v, suggested_company = suggest v,
      \<dots> = with_canonical.more r\<rparr>"

definition mark_suspects :: "'a contact_scheme list \<Rightarrow> string set \<Rightarrow> 'a marked_scheme list" where
  "mark_suspects df0 prospect_companies =
     (let df1 = map derive df0;
          company_counts = count_list (map company_clean df1);
          dominant_df = find_dominant_company_per_domain df1;
          df2 = merge_left domain fst add_dominant df1 dominant_df;
          canonical_df = find_canonical_company_by_name df2;
          df3 = merge_left (\<lambda>r. Some (company_norm r)) fst add_canonical df2 canonical_df
      in map (\<lambda>row. add_verdict row (classify prospect_companies company_counts row)) df3)"

section \<open>The command-line program\<close>

text \<open>
  \<open>main\<close> reads and writes files. What it reads is given by an environment: whether a
  path exists, the frame that the CSV reader returns for a path, the lines of a text
  file, and the suffix arithmetic of the path library. What it prints and writes is
  returned as a list of events, in order, with the exception that ends the run, if any.
\<close>

datatype error =
    FileNotFoundError string
  | Missing_columns "string set"
  | No_company_column
  | Invalid_suffix string
  | Empty_name
  | KeyError string

record frame =
  columns :: "string list"
  rows :: "cell list list"

record env =
  path_exists :: "string \<Rightarrow> bool"
  read_csv :: "string \<Rightarrow> frame"
  read_lines :: "string \<Rightarrow> string list"
  path_suffix :: "string \<Rightarrow> string"
  replace_suffix :: "string \<Rightarrow> string \<Rightarrow> error + string"

record args =
  input_csv :: string
  empresas_prospectadas :: "string option"
  saida_base :: string

datatype table =
    Marked "cell list marked_scheme list"
  | Corrected "cell list contact_scheme list"

datatype event =
    Printed_reading string
  | Printed_warning string
  | Printed_loaded nat
  | Wrote string table
  | Printed_done

definition with_suffix :: "env \<Rightarrow> string \<Rightarrow> string \<Rightarrow> error + string" where
  \<comment> \<open>\<open>Path.with_suffix\<close>: a suffix that is not empty has to start with a dot
      and have a character after it\<close>
  "with_suffix e base suffix =
     (if CHR ''/'' \<in> set suffix \<or> (suffix \<noteq> [] \<and> hd suffix \<noteq> CHR ''.'') \<or> suffix = ''.''
      then Inl (Invalid_suffix suffix)
      else replace_suffix e base suffix)"

fun index_of :: "'a \<Rightarrow> 'a list \<Rightarrow> nat option" where
  "index_of x [] = None"
| "index_of x (y # ys) = (if x = y then Some 0 else map_option Suc (index_of x ys))"

definition cell_at :: "cell list \<Rightarrow> nat \<Rightarrow> cell" where
  "cell_at row i = (if i < length row then row ! i else NaN)"

definition column :: "frame \<Rightarrow> string \<Rightarrow> error + cell list" where
  \<comment> \<open>\<open>df[name]\<close>\<close>
  "column df name =
     (case index_of name (columns df) of
        None \<Rightarrow> Inl (KeyError name)
      | Some i \<Rightarrow> Inr (map (\<lambda>row. cell_at row i) (rows df)))"

definition contacts :: "frame \<Rightarrow> error + cell list contact_scheme list" where
  \<comment> \<open>the rows of a frame as \<open>mark_suspects\<close> reads them: the two columns it looks up
      by name, and the cells of the other columns\<close>
  "contacts df =
     (case index_of ''Email'' (columns df) of
        None \<Rightarrow> Inl (KeyError ''Email'')
      | Some i \<Rightarrow>
          (case index_of ''Company Name'' (columns df) of
             None \<Rightarrow> Inl (KeyError ''Company Name'')
           | Some j \<Rightarrow>
               Inr (map (\<lambda>row. \<lparr>Email = cell_at row i, Company_Name = cell_at row j,
                                 \<dots> = map snd (filter (\<lambda>kc. fst kc \<noteq> i \<and> fst kc \<noteq> j)
                                               (enumerate 0 row))\<rparr>)
                      (rows df))))"

definition load_prospect_companies :: "env \<Rightarrow> string option \<Rightarrow> event list \<times> (error + string set)" where
  "load_prospect_companies e path =
     (case path of
        None \<Rightarrow> ([], Inr {})
      | Some p \<Rightarrow>
          if p = [] then ([], Inr {})
          else if \<not> path_exists e p then ([Printed_warning p], Inr {})
          else if lower (path_suffix e p) = ''.txt''
          then ([], Inr (set (filter (\<lambda>line. line \<noteq> []) (map strip (read_lines e p)))))
          else
            (let df = read_csv e p;
                 col_candidates =
                   filter (\<lambda>c. strip (lower c) \<in> {''company name'', ''company'', ''empresa''})
                     (columns df)
             in case col_candidates of
                  [] \<Rightarrow> ([], Inl No_company_column)
                | col # _ \<Rightarrow>
                    (case column df col of
                       Inl err \<Rightarrow> ([], Inl err)
                     | Inr cells \<Rightarrow>
                         ([], Inr (set (map (\<lambda>x. strip (astype_str x))
                                          (filter (\<lambda>x. x \<noteq> NaN) cells)))))))"

definition pac_row :: "'a marked_scheme \<Rightarrow> 'a contact_scheme" where
  \<comment> \<open>the company name replaced by the suggestion, if there is one and it is not empty,
      and the added columns dropped\<close>
  "pac_row r =
     \<lparr>Email = Email r,
      Company_Name =
        (case suggested_company r of
           None \<Rightarrow> Company_Name r
         | Some s \<Rightarrow> if s \<noteq> [] then Str s else Company_Name r),
      \<dots> = marked.more r\<rparr>"

definition main :: "env \<Rightarrow> args \<Rightarrow> event list \<times> (error + unit)" where
  "main e a =
     (if \<not> path_exists e (input_csv a) then ([], Inl (FileNotFoundError (input_csv a)))
      else
        (let ev1 = [Printed_reading (input_csv a)];
             df = read_csv e (input_csv a);
             missing = {''Email'', ''Company Name''} - set (columns df)
         in if missing \<noteq> {} then (ev1, Inl (Missing_columns missing))
            else
              (case load_prospect_companies e (empresas_prospectadas a) of
                 (ev2, Inl err) \<Rightarrow> (ev1 @ ev2, Inl err)
               | (ev2, Inr prospect_companies) \<Rightarrow>
                   (let ev3 = ev1 @ ev2 @
                          (if prospect_companies \<noteq> {}
                           then [Printed_loaded (card prospect_companies)] else [])
                    in case contacts df of
                         Inl err \<Rightarrow> (ev3, Inl err)
                       | Inr rs \<Rightarrow>
                           (let df_marked = mark_suspects rs prospect_companies
                            in case with_suffix e (saida_base a) ''.contatos_tratados.csv'' of
                                 Inl err \<Rightarrow> (ev3, Inl err)
                               | Inr treated_path \<Rightarrow>
                                   (case with_suffix e (saida_base a)
                                           ''.contatos_suspeitos_isolados.csv'' of
                                      Inl err \<Rightarrow> (ev3, Inl err)
                                    | Inr suspects_path \<Rightarrow>
                                        (let ev4 = ev3 @
                                               [Wrote treated_path (Marked df_marked),
                                                Wrote suspects_path
                                                  (Marked (filter is_suspect df_marked))];
                                             df_pac = map pac_row df_marked
                                         in case with_suffix e (saida_base a) ''pac.csv'' of
                                              Inl err \<Rightarrow> (ev4, Inl err)
                                            | Inr pac_path \<Rightarrow>
                                                (ev4 @ [Wrote pac_path (Corrected df_pac),
                                                        Printed_done],
                                                 Inr ()))))))))"

definition wrote :: "event \<Rightarrow> bool" where
  "wrote ev = (case ev of Wrote p t \<Rightarrow> True | _ \<Rightarrow> False)"

section \<open>Notions used to state the properties\<close>

definition from_dominance :: "reason \<Rightarrow> bool" where
  \<comment> \<open>the reasons that the domain-dominance check records\<close>
  "from_dominance x = (case x of Differs_from_dominant d dc sh \<Rightarrow> True | _ \<Rightarrow> False)"

definition from_canonical :: "reason \<Rightarrow> bool" where
  \<comment> \<open>the reasons that the canonical-spelling check records\<close>
  "from_canonical x = (case x of Differs_from_canonical cc \<Rightarrow> True | _ \<Rightarrow> False)"

definition dominance_suggestion :: "'a with_canonical_scheme \<Rightarrow> string option" where
  \<comment> \<open>what the domain-dominance check proposes for a row, if anything\<close>
  "dominance_suggestion r =
     (case domain r of
        None \<Rightarrow> None
      | Some d \<Rightarrow>
          (case dominant_company r of
             None \<Rightarrow> None
           | Some dc \<Rightarrow>
               (case dominant_share r of
                  None \<Rightarrow> None
                | Some sh \<Rightarrow>
                    if company_clean r \<noteq> dc \<and> DOMINANT_MIN_SHARE \<le> sh then Some dc else None)))"

definition canonical_suggestion :: "'a with_canonical_scheme \<Rightarrow> string option" where
  \<comment> \<open>what the canonical-spelling check proposes for a row, if anything\<close>
  "canonical_suggestion r =
     (case canonical_company r of
        None \<Rightarrow> None
      | Some cc \<Rightarrow> if company_clean r \<noteq> cc then Some cc else None)"

definition scenario_A :: "contact list" where
  "scenario_A =
     [\<lparr>Email = Str ''ann@acme.com'', Company_Name = Str ''Acme Inc''\<rparr>,
      \<lparr>Email = Str ''bob@acme.com'', Company_Name = Str ''Acme''\<rparr>,
      \<lparr>Email = Str ''cy@acme.com'', Company_Name = Str ''Acme Inc''\<rparr>,
      \<lparr>Email = Str ''dee@acme.com'', Company_Name = Str ''Acme Inc''\<rparr>]"

definition scenario_D :: "contact list" where
  \<comment> \<open>two spellings of one name, one of them on a domain that another company dominates\<close>
  "scenario_D =
     [\<lparr>Email = Str ''ann@initech.com'', Company_Name = Str ''Initech''\<rparr>,
      \<lparr>Email = Str ''bob@initech.com'', Company_Name = Str ''Initech''\<rparr>,
      \<lparr>Email = Str ''dee@initech.com'', Company_Name = Str ''globex corp''\<rparr>,
      \<lparr>Email = NaN, Company_Name = Str ''Globex Corp''\<rparr>,
      \<lparr>Email = Str ''no at sign'', Company_Name = Str ''Globex Corp''\<rparr>,
      \<lparr>Email = NaN, Company_Name = Str ''Globex Corp ''\<rparr>,
      \<lparr>Email = NaN, Company_Name = Str ''globex corp''\<rparr>]"

text \<open>The columns of a classified row that the examples below look at.\<close>

definition summary ::
  "'a marked_scheme \<Rightarrow> string \<times> string option \<times> string option \<times> rat option \<times> string option \<times> bool \<times> reason list \<times> string option" where
  "summary r = (company_clean r, domain r, dominant_company r, dominant_share r,
                canonical_company r, is_suspect r, suspect_reasons r, suggested_company r)"

text \<open>Stripping the columns that \<open>mark_suspects\<close> adds gives back a row of the input table.\<close>

definition strip_outputs :: "'a marked_scheme \<Rightarrow> 'a contact_scheme" where
  "strip_outputs r = \<lparr>Email = Email r, Company_Name = Company_Name r, \<dots> = marked.more r\<rparr>"

text \<open>
  The number of rows of a domain that carry a given raw company name, and the number of
  rows whose trimmed company name is a given spelling.
\<close>

definition group_count :: "'a derived_scheme list \<Rightarrow> string \<Rightarrow> string \<Rightarrow> nat" where
  "group_count df d c = length (filter (\<lambda>r. domain r = Some d \<and> Company_Name r = Str c) df)"

definition spelling_count :: "'a contact_scheme list \<Rightarrow> string \<Rightarrow> nat" where
  "spelling_count df c = length (filter (\<lambda>r. strip (astype_str (Company_Name r)) = c) df)"


text \<open>The row that \<open>domain_stats\<close> builds from a group and its count.\<close>

definition mk_stat :: "((string \<times> string) \<times> nat) list \<Rightarrow> (string \<times> string) \<times> nat \<Rightarrow> stat" where
  "mk_stat stats g =
     \<lparr>stat_domain = fst (fst g), stat_company = snd (fst g), stat_count = snd g,
      total_domain = sum_list (map snd (filter (\<lambda>h. fst (fst h) = fst (fst g)) stats)),
      share = float64 (of_nat (snd g) /
              of_nat (sum_list (map snd (filter (\<lambda>h. fst (fst h) = fst (fst g)) stats))))\<rparr>"

definition tie_table :: "contact list" where
  "tie_table =
     [\<lparr>Email = Str ''ann@acme.com'', Company_Name = Str ''acme''\<rparr>,
      \<lparr>Email = Str ''bob@acme.com'', Company_Name = Str ''ACME''\<rparr>]"


definition untrimmed_table :: "contact list" where
  "untrimmed_table =
     [\<lparr>Email = Str ''ann@acme.com'', Company_Name = Str '' Acme''\<rparr>,
      \<lparr>Email = Str ''bob@acme.com'', Company_Name = Str '' Acme''\<rparr>]"

definition nan_domain_table :: "contact list" where
  "nan_domain_table =
     [\<lparr>Email = Str ''ann@acme.com'', Company_Name = NaN\<rparr>,
      \<lparr>Email = Str ''bob@acme.com'', Company_Name = NaN\<rparr>,
      \<lparr>Email = Str ''cy@acme.com'', Company_Name = Str ''Acme''\<rparr>]"

definition nan_table :: "contact list" where
  "nan_table =
     [\<lparr>Email = NaN, Company_Name = NaN\<rparr>,
      \<lparr>Email = NaN, Company_Name = NaN\<rparr>,
      \<lparr>Email = NaN, Company_Name = Str ''NaN''\<rparr>]"

text \<open>An environment and arguments for an example run.\<close>

definition example_env :: "string list \<Rightarrow> env" where
  \<comment> \<open>one input file \<open>in.csv\<close> with the given header and one row\<close>
  "example_env header =
     \<lparr>path_exists = (\<lambda>p. p = ''in.csv''),
      read_csv = (\<lambda>p. \<lparr>columns = header, rows = [[Str ''ann@acme.com'', Str ''Acme'']]\<rparr>),
      read_lines = (\<lambda>p. []),
      path_suffix = (\<lambda>p. ''.csv''),
      replace_suffix = (\<lambda>base suffix. Inr (base @ suffix))\<rparr>"

definition example_args :: args where
  "example_args = \<lparr>input_csv = ''in.csv'', empresas_prospectadas = None, saida_base = ''apollo''\<rparr>"

section \<open>Properties of the domain extractor\<close>

lemma str_split_no_sep: "sep \<notin> set s \<Longrightarrow> str_split sep s = [s]"
  by (induction s) auto

lemma str_split_snoc:
  "sep \<notin> set suf \<Longrightarrow> \<exists>ps. ps \<noteq> [] \<and> str_split sep (pre @ sep # suf) = ps @ [suf]"
proof (induction pre)
  case Nil
  then have "str_split sep ([] @ sep # suf) = [[]] @ [suf]"
    by (simp add: str_split_no_sep)
  then show ?case by blast
next
  case (Cons c pre)
  then obtain p ps where ps: "str_split sep (pre @ sep # suf) = (p # ps) @ [suf]"
    by (metis list.exhaust)
  show ?case
  proof (cases "c = sep")
    case True
    with ps have "str_split sep ((c # pre) @ sep # suf) = ([] # p # ps) @ [suf]" by simp
    then show ?thesis by blast
  next
    case False
    with ps have "str_split sep ((c # pre) @ sep # suf) = ((c # p) # ps) @ [suf]" by simp
    then show ?thesis by blast
  qed
qed

lemma last_str_split: "sep \<notin> set suf \<Longrightarrow> last (str_split sep (pre @ sep # suf)) = suf"
  using str_split_snoc [of sep suf pre] by auto

text \<open>
  Claim C8. The domain extractor is a total function of the raw value, so it raises
  nothing. On a missing value it returns absent; on a string without \<open>@\<close> it returns
  absent; on a string \<open>pre @ suf\<close> whose part \<open>suf\<close> after the last \<open>@\<close> holds no
  further \<open>@\<close>, it returns \<open>suf\<close> trimmed and lowercased.
\<close>

theorem extract_domain_contract:
  "extract_domain NaN = None
   \<and> (CHR ''@'' \<notin> set s \<longrightarrow> extract_domain (Str s) = None)
   \<and> (CHR ''@'' \<notin> set suf \<longrightarrow>
        extract_domain (Str (pre @ CHR ''@'' # suf)) = Some (lower (strip suf)))"
  by (simp add: extract_domain_def last_str_split)

theorem extract_domain_contract_witness:
  "CHR ''@'' \<notin> set ''bob.acme.com'' \<and> extract_domain (Str ''bob.acme.com'') = None
   \<and> CHR ''@'' \<notin> set '' Acme.COM  ''
   \<and> extract_domain (Str (''Bob@x'' @ CHR ''@'' # '' Acme.COM  '')) = Some ''acme.com''
   \<and> extract_domain NaN = None"
proof -
  have a: "CHR ''@'' \<notin> set ''bob.acme.com''" by simp
  have b: "CHR ''@'' \<notin> set '' Acme.COM  ''" by simp
  have c: "lower (strip '' Acme.COM  '') = ''acme.com''" by code_simp
  from extract_domain_contract [of "''bob.acme.com''" "'' Acme.COM  ''" "''Bob@x''"] a b c
  show ?thesis by simp
qed

section \<open>Properties of the rounding\<close>










lemma min_share_examples:
  "DOMINANT_MIN_SHARE \<le> 3 / 4" "DOMINANT_MIN_SHARE \<le> float64 (2 / 3)"
  "DOMINANT_MIN_SHARE \<le> float64 (3 / 5)" "\<not> DOMINANT_MIN_SHARE \<le> float64 (1 / 2)"
  by code_simp+

section \<open>Properties of the classifier\<close>

lemma mark_suspects_rows:
  "r \<in> set (mark_suspects df P) \<Longrightarrow>
     \<exists>row. r = add_verdict row (classify P (count_list (map company_clean (map derive df))) row)"
  by (auto simp: mark_suspects_def Let_def)

lemma add_verdict_sel [simp]:
  "domain (add_verdict row v) = domain row"
  "company_clean (add_verdict row v) = company_clean row"
  "company_norm (add_verdict row v) = company_norm row"
  "dominant_company (add_verdict row v) = dominant_company row"
  "dominant_share (add_verdict row v) = dominant_share row"
  "canonical_company (add_verdict row v) = canonical_company row"
  "is_suspect (add_verdict row v) = flagged v"
  "suspect_reasons (add_verdict row v) = reasons v"
  "suggested_company (add_verdict row v) = suggest v"
  "Email (add_verdict row v) = Email row"
  "Company_Name (add_verdict row v) = Company_Name row"
  by (simp_all add: add_verdict_def)

lemmas check_defs = classify_def check_dominant_def check_prospects_def check_singleton_def
  check_canonical_def

lemma classify_flagged: "flagged (classify P cnt row) = (reasons (classify P cnt row) \<noteq> [])"
  by (simp add: check_defs split: option.splits)

lemma classify_dominance_absent:
  "domain row = None \<Longrightarrow>
     filter from_dominance (reasons (classify P cnt row)) = []
     \<and> suggest (classify P cnt row) = canonical_suggestion row"
  by (simp add: check_defs from_dominance_def canonical_suggestion_def split: option.splits)

lemma classify_dominance_present:
  "domain row = Some d \<Longrightarrow> dominant_company row = Some dc \<Longrightarrow> dominant_share row = Some sh \<Longrightarrow>
     filter from_dominance (reasons (classify P cnt row)) =
       (if company_clean row \<noteq> dc \<and> DOMINANT_MIN_SHARE \<le> sh
        then [Differs_from_dominant d dc sh] else [])
     \<and> (company_clean row \<noteq> dc \<and> DOMINANT_MIN_SHARE \<le> sh \<longrightarrow>
           flagged (classify P cnt row)
           \<and> hd (reasons (classify P cnt row)) = Differs_from_dominant d dc sh
           \<and> suggest (classify P cnt row) = Some dc)"
  by (simp add: check_defs from_dominance_def split: option.splits)

lemma classify_canonical:
  "filter from_canonical (reasons (classify P cnt row)) =
     (case canonical_company row of
        None \<Rightarrow> []
      | Some cc \<Rightarrow> if company_clean row \<noteq> cc then [Differs_from_canonical cc] else [])
   \<and> (\<forall>cc. canonical_company row = Some cc \<and> company_clean row \<noteq> cc \<longrightarrow>
         flagged (classify P cnt row)
         \<and> last (reasons (classify P cnt row)) = Differs_from_canonical cc)"
  by (simp add: check_defs from_canonical_def split: option.splits)

lemma classify_suggest:
  "suggest (classify P cnt row) =
     (case dominance_suggestion row of Some s \<Rightarrow> Some s | None \<Rightarrow> canonical_suggestion row)"
  by (simp add: check_defs dominance_suggestion_def canonical_suggestion_def split: option.splits)

lemma suggestion_sel [simp]:
  "dominance_suggestion (add_verdict row v) = dominance_suggestion row"
  "canonical_suggestion (add_verdict row v) = canonical_suggestion row"
  by (simp_all add: dominance_suggestion_def canonical_suggestion_def split: option.splits)

text \<open>
  Claim C3. In every classified table, a record is suspect if and only if its sequence
  of reasons is not empty.
\<close>

theorem suspect_iff_reasons:
  "r \<in> set (mark_suspects df P) \<Longrightarrow> is_suspect r = (suspect_reasons r \<noteq> [])"
proof -
  assume "r \<in> set (mark_suspects df P)"
  then obtain row cnt where "r = add_verdict row (classify P cnt row)"
    using mark_suspects_rows by blast
  then show ?thesis by (simp add: classify_flagged)
qed

theorem suspect_iff_reasons_witness:
  "mark_suspects scenario_A {} ! 1 \<in> set (mark_suspects scenario_A {})
   \<and> is_suspect (mark_suspects scenario_A {} ! 1)
   \<and> suspect_reasons (mark_suspects scenario_A {} ! 1) \<noteq> []
   \<and> mark_suspects scenario_A {} ! 0 \<in> set (mark_suspects scenario_A {})
   \<and> \<not> is_suspect (mark_suspects scenario_A {} ! 0)
   \<and> suspect_reasons (mark_suspects scenario_A {} ! 0) = []"
proof -
  have len: "length (mark_suspects scenario_A {}) = 4" by code_simp
  have m1: "mark_suspects scenario_A {} ! 1 \<in> set (mark_suspects scenario_A {})"
    by (rule nth_mem) (simp add: len)
  have m0: "mark_suspects scenario_A {} ! 0 \<in> set (mark_suspects scenario_A {})"
    by (rule nth_mem) (simp add: len)
  have r1: "suspect_reasons (mark_suspects scenario_A {} ! 1) \<noteq> []" by code_simp
  have r0: "suspect_reasons (mark_suspects scenario_A {} ! 0) = []" by code_simp
  from suspect_iff_reasons [OF m1] suspect_iff_reasons [OF m0] m1 m0 r1 r0
  show ?thesis by simp
qed

lemma nth_summary:
  "map summary xs = vs \<Longrightarrow> i < length vs \<Longrightarrow> xs ! i \<in> set xs \<and> summary (xs ! i) = vs ! i"
  by (metis length_map nth_map nth_mem)

lemma scenario_A_marked:
  "map summary (mark_suspects scenario_A {}) =
     [(''Acme Inc'', Some ''acme.com'', Some ''Acme Inc'', Some (3 / 4), Some ''Acme Inc'',
       False, [], None),
      (''Acme'', Some ''acme.com'', Some ''Acme Inc'', Some (3 / 4), Some ''Acme'',
       True, [Differs_from_dominant ''acme.com'' ''Acme Inc'' (3 / 4), Appears_once],
       Some ''Acme Inc''),
      (''Acme Inc'', Some ''acme.com'', Some ''Acme Inc'', Some (3 / 4), Some ''Acme Inc'',
       False, [], None),
      (''Acme Inc'', Some ''acme.com'', Some ''Acme Inc'', Some (3 / 4), Some ''Acme Inc'',
       False, [], None)]"
  by code_simp

lemma scenario_D_marked:
  "map summary (mark_suspects scenario_D {}) =
     [(''Initech'', Some ''initech.com'', Some ''Initech'', Some (float64 (2 / 3)), Some ''Initech'',
       False, [], None),
      (''Initech'', Some ''initech.com'', Some ''Initech'', Some (float64 (2 / 3)), Some ''Initech'',
       False, [], None),
      (''globex corp'', Some ''initech.com'', Some ''Initech'', Some (float64 (2 / 3)), Some ''Globex Corp'',
       True, [Differs_from_dominant ''initech.com'' ''Initech'' (float64 (2 / 3)),
              Differs_from_canonical ''Globex Corp''],
       Some ''Initech''),
      (''Globex Corp'', None, None, None, Some ''Globex Corp'', False, [], None),
      (''Globex Corp'', None, None, None, Some ''Globex Corp'', False, [], None),
      (''Globex Corp'', None, None, None, Some ''Globex Corp'', False, [], None),
      (''globex corp'', None, None, None, Some ''Globex Corp'',
       True, [Differs_from_canonical ''Globex Corp''], Some ''Globex Corp'')]"
  by code_simp

text \<open>
  Claim C1. For a row of a classified table whose domain is present and that carries a
  dominant company and share, the domain-dominance check records its reason exactly when
  the trimmed company differs from the dominant company and the share is at least
  \<open>DOMINANT_MIN_SHARE\<close>; it then flags the row, its reason comes first, and the
  suggestion is the dominant company. For a row without a domain the check records no
  reason and the suggestion is whatever the canonical-spelling check proposes. The witness
  is Scenario A: of three "Acme Inc" and one "Acme" on \<open>acme.com\<close>, only "Acme" is
  flagged by this check, with suggestion "Acme Inc".
\<close>

theorem dominance_heuristic:
  assumes "r \<in> set (mark_suspects df P)"
  shows "(domain r = None \<longrightarrow>
            filter from_dominance (suspect_reasons r) = []
            \<and> suggested_company r = canonical_suggestion r)
       \<and> (\<forall>d dc sh. domain r = Some d \<and> dominant_company r = Some dc \<and> dominant_share r = Some sh \<longrightarrow>
            filter from_dominance (suspect_reasons r) =
              (if company_clean r \<noteq> dc \<and> DOMINANT_MIN_SHARE \<le> sh
               then [Differs_from_dominant d dc sh] else [])
            \<and> (company_clean r \<noteq> dc \<and> DOMINANT_MIN_SHARE \<le> sh \<longrightarrow>
                  is_suspect r
                  \<and> hd (suspect_reasons r) = Differs_from_dominant d dc sh
                  \<and> suggested_company r = Some dc))"
proof -
  from assms obtain row cnt where r: "r = add_verdict row (classify P cnt row)"
    using mark_suspects_rows by blast
  show ?thesis
    unfolding r using classify_dominance_absent [of row P cnt] classify_dominance_present [of row _ _ _ P cnt]
    by simp
qed

theorem dominance_heuristic_witness:
  "mark_suspects scenario_A {} ! 1 \<in> set (mark_suspects scenario_A {})
   \<and> company_clean (mark_suspects scenario_A {} ! 1) = ''Acme''
   \<and> domain (mark_suspects scenario_A {} ! 1) = Some ''acme.com''
   \<and> dominant_company (mark_suspects scenario_A {} ! 1) = Some ''Acme Inc''
   \<and> dominant_share (mark_suspects scenario_A {} ! 1) = Some (3 / 4)
   \<and> DOMINANT_MIN_SHARE \<le> 3 / 4
   \<and> filter from_dominance (suspect_reasons (mark_suspects scenario_A {} ! 1)) =
        [Differs_from_dominant ''acme.com'' ''Acme Inc'' (3 / 4)]
   \<and> is_suspect (mark_suspects scenario_A {} ! 1)
   \<and> suggested_company (mark_suspects scenario_A {} ! 1) = Some ''Acme Inc''
   \<and> mark_suspects scenario_A {} ! 0 \<in> set (mark_suspects scenario_A {})
   \<and> company_clean (mark_suspects scenario_A {} ! 0) = ''Acme Inc''
   \<and> filter from_dominance (suspect_reasons (mark_suspects scenario_A {} ! 0)) = []
   \<and> mark_suspects scenario_D {} ! 6 \<in> set (mark_suspects scenario_D {})
   \<and> domain (mark_suspects scenario_D {} ! 6) = None
   \<and> filter from_dominance (suspect_reasons (mark_suspects scenario_D {} ! 6)) = []
   \<and> suggested_company (mark_suspects scenario_D {} ! 6) = Some ''Globex Corp''"
proof -
  note a1 = nth_summary [OF scenario_A_marked, of 1, simplified, unfolded summary_def]
  note a0 = nth_summary [OF scenario_A_marked, of 0, simplified, unfolded summary_def]
  note d6 = nth_summary [OF scenario_D_marked, of 6, simplified, unfolded summary_def]
  have ge: "DOMINANT_MIN_SHARE \<le> 3 / 4" by (rule min_share_examples(1))
  have m1: "mark_suspects scenario_A {} ! 1 \<in> set (mark_suspects scenario_A {})"
    and m0: "mark_suspects scenario_A {} ! 0 \<in> set (mark_suspects scenario_A {})"
    and m6: "mark_suspects scenario_D {} ! 6 \<in> set (mark_suspects scenario_D {})"
    using a1 a0 d6 by simp_all
  note t1 = dominance_heuristic [OF m1, THEN conjunct2, rule_format,
      of "''acme.com''" "''Acme Inc''" "3 / 4"]
  note t0 = dominance_heuristic [OF m0, THEN conjunct2, rule_format,
      of "''acme.com''" "''Acme Inc''" "3 / 4"]
  note t6 = dominance_heuristic [OF m6, THEN conjunct1]
  from t1 t0 t6 a1 a0 d6 ge show ?thesis
    by (simp add: canonical_suggestion_def)
qed

text \<open>
  Claim C4. The canonical-spelling check records its reason exactly when the row carries
  a canonical company that differs from the trimmed company; the suggestion of a row is
  the proposal of the domain-dominance check if there is one, otherwise the proposal of
  the canonical-spelling check, otherwise absent.
\<close>

theorem canonical_heuristic:
  assumes "r \<in> set (mark_suspects df P)"
  shows "filter from_canonical (suspect_reasons r) =
           (case canonical_company r of
              None \<Rightarrow> []
            | Some cc \<Rightarrow> if company_clean r \<noteq> cc then [Differs_from_canonical cc] else [])
       \<and> (\<forall>cc. canonical_company r = Some cc \<and> company_clean r \<noteq> cc \<longrightarrow>
             is_suspect r \<and> last (suspect_reasons r) = Differs_from_canonical cc)
       \<and> suggested_company r =
           (case dominance_suggestion r of
              Some s \<Rightarrow> Some s
            | None \<Rightarrow> canonical_suggestion r)"
proof -
  from assms obtain row cnt where r: "r = add_verdict row (classify P cnt row)"
    using mark_suspects_rows by blast
  show ?thesis
    unfolding r using classify_canonical [of P cnt row] classify_suggest [of P cnt row]
    by (auto cong: option.case_cong)
qed

theorem canonical_heuristic_witness:
  "mark_suspects scenario_D {} ! 2 \<in> set (mark_suspects scenario_D {})
   \<and> company_clean (mark_suspects scenario_D {} ! 2) = ''globex corp''
   \<and> canonical_company (mark_suspects scenario_D {} ! 2) = Some ''Globex Corp''
   \<and> filter from_canonical (suspect_reasons (mark_suspects scenario_D {} ! 2)) =
        [Differs_from_canonical ''Globex Corp'']
   \<and> dominance_suggestion (mark_suspects scenario_D {} ! 2) = Some ''Initech''
   \<and> suggested_company (mark_suspects scenario_D {} ! 2) = Some ''Initech''
   \<and> mark_suspects scenario_D {} ! 6 \<in> set (mark_suspects scenario_D {})
   \<and> dominance_suggestion (mark_suspects scenario_D {} ! 6) = None
   \<and> canonical_suggestion (mark_suspects scenario_D {} ! 6) = Some ''Globex Corp''
   \<and> suggested_company (mark_suspects scenario_D {} ! 6) = Some ''Globex Corp''
   \<and> mark_suspects scenario_D {} ! 0 \<in> set (mark_suspects scenario_D {})
   \<and> suggested_company (mark_suspects scenario_D {} ! 0) = None"
proof -
  note d2 = nth_summary [OF scenario_D_marked, of 2, simplified, unfolded summary_def]
  note d6 = nth_summary [OF scenario_D_marked, of 6, simplified, unfolded summary_def]
  note d0 = nth_summary [OF scenario_D_marked, of 0, simplified, unfolded summary_def]
  have m2: "mark_suspects scenario_D {} ! 2 \<in> set (mark_suspects scenario_D {})"
    and m6: "mark_suspects scenario_D {} ! 6 \<in> set (mark_suspects scenario_D {})"
    and m0: "mark_suspects scenario_D {} ! 0 \<in> set (mark_suspects scenario_D {})"
    using d2 d6 d0 by simp_all
  from canonical_heuristic [OF m2] canonical_heuristic [OF m6] canonical_heuristic [OF m0]
    d2 d6 d0
  show ?thesis
    by (simp add: canonical_suggestion_def dominance_suggestion_def min_share_examples)
qed

section \<open>Properties of the frame operations\<close>

lemma set_drop_duplicates: "set (drop_duplicates f xs) \<subseteq> set xs"
  by (induction f xs rule: drop_duplicates.induct) auto

lemma keys_drop_duplicates: "f ` set (drop_duplicates f xs) = f ` set xs"
  by (induction f xs rule: drop_duplicates.induct) auto

lemma distinct_drop_duplicates: "distinct (map f (drop_duplicates f xs))"
proof (induction f xs rule: drop_duplicates.induct)
  case (1 f)
  then show ?case by simp
next
  case (2 f x xs)
  have "f x \<notin> f ` set (drop_duplicates f (filter (\<lambda>y. f y \<noteq> f x) xs))"
    using set_drop_duplicates [of f "filter (\<lambda>y. f y \<noteq> f x) xs"] by auto
  with 2 show ?case by simp
qed

lemma drop_duplicates_first:
  "x \<in> set (drop_duplicates f xs) \<Longrightarrow> hd (filter (\<lambda>y. f y = f x) xs) = x"
proof (induction f xs rule: drop_duplicates.induct)
  case (1 f)
  then show ?case by simp
next
  case (2 f a xs)
  show ?case
  proof (cases "x = a")
    case True
    then show ?thesis by simp
  next
    case False
    with 2 have mem: "x \<in> set (drop_duplicates f (filter (\<lambda>y. f y \<noteq> f a) xs))" by simp
    then have "x \<in> set (filter (\<lambda>y. f y \<noteq> f a) xs)"
      using set_drop_duplicates by fastforce
    then have ne: "f x \<noteq> f a" by simp
    have "filter (\<lambda>y. f y = f x) (filter (\<lambda>y. f y \<noteq> f a) xs) = filter (\<lambda>y. f y = f x) xs"
      using ne by (auto intro: filter_cong)
    with "2.IH" [OF mem] ne show ?thesis by auto
  qed
qed

lemma filter_unique_key:
  "distinct (map f xs) \<Longrightarrow>
     filter (\<lambda>r. f r = k) xs = (case find (\<lambda>r. f r = k) xs of None \<Rightarrow> [] | Some x \<Rightarrow> [x])"
proof (induction xs)
  case Nil
  then show ?case by simp
next
  case (Cons a xs)
  show ?case
  proof (cases "f a = k")
    case True
    have "k \<notin> f ` set xs"
      using True Cons.prems by simp
    then have "\<forall>x \<in> set xs. f x \<noteq> k" by blast
    then have "filter (\<lambda>r. f r = k) xs = []"
      by (simp add: filter_empty_conv)
    with True show ?thesis by simp
  next
    case False
    with Cons show ?thesis by simp
  qed
qed

lemma merge_left_unique:
  assumes "distinct (map rkey right)"
  shows "merge_left lkey rkey join left right =
           map (\<lambda>l. join l (find (\<lambda>r. Some (rkey r) = lkey l) right)) left"
proof -
  have "filter (\<lambda>r. Some (rkey r) = k) right =
          (case find (\<lambda>r. Some (rkey r) = k) right of None \<Rightarrow> [] | Some x \<Rightarrow> [x])" for k
    using filter_unique_key [of "\<lambda>r. Some (rkey r)" right k] assms
    by (simp add: distinct_map inj_on_def comp_def)
  then have "(case filter (\<lambda>r. Some (rkey r) = lkey l) right of
                [] \<Rightarrow> [join l None]
              | ms \<Rightarrow> map (\<lambda>r. join l (Some r)) ms) =
             [join l (find (\<lambda>r. Some (rkey r) = lkey l) right)]" for l
    by (simp split: option.splits)
  then show ?thesis
    by (simp add: merge_left_def)
qed

lemma distinct_dominant_keys: "distinct (map fst (find_dominant_company_per_domain df))"
  by (simp add: find_dominant_company_per_domain_def comp_def distinct_drop_duplicates)

lemma distinct_canonical_keys: "distinct (map fst (find_canonical_company_by_name df))"
  by (simp add: find_canonical_company_by_name_def comp_def distinct_drop_duplicates)

lemma mark_suspects_map:
  "mark_suspects df P =
     (let df1 = map derive df;
          company_counts = count_list (map company_clean df1);
          dominant_df = find_dominant_company_per_domain df1;
          df2 = map (\<lambda>l. add_dominant l (find (\<lambda>a. Some (fst a) = domain l) dominant_df)) df1;
          canonical_df = find_canonical_company_by_name df2
      in map (\<lambda>l. let row = add_canonical l (find (\<lambda>a. Some (fst a) = Some (company_norm l)) canonical_df)
                   in add_verdict row (classify P company_counts row)) df2)"
  by (simp add: mark_suspects_def Let_def merge_left_unique distinct_dominant_keys
      distinct_canonical_keys comp_def)

lemma contact_eta:
  "\<lparr>Email = Email x, Company_Name = Company_Name x, \<dots> = contact.more x\<rparr> = x"
  by (cases x) simp

lemma strip_outputs_mark_suspects: "map strip_outputs (mark_suspects df P) = df"
  by (simp add: mark_suspects_map Let_def comp_def strip_outputs_def add_verdict_def
      add_canonical_def add_dominant_def derive_def contact_eta)

text \<open>
  Claim C7. Classifying the table obtained from a classified table by stripping the
  added columns, with the same allow-list, gives the same classified table again: the
  same rows in the same order, hence the same flag, reasons and suggestion for every
  record.
\<close>

theorem classification_idempotent:
  "mark_suspects (map strip_outputs (mark_suspects df P)) P = mark_suspects df P"
  by (simp add: strip_outputs_mark_suspects)

section \<open>Properties of the two resolvers\<close>

lemma sorted_hd_least:
  "sorted (map g xs) \<Longrightarrow> y \<in> set xs \<Longrightarrow> g (hd xs) \<le> g y"
  by (cases xs) auto

lemma hd_filter_self: "xs \<noteq> [] \<Longrightarrow> P (hd xs) \<Longrightarrow> hd (filter P xs) = hd xs"
  by (cases xs) auto

text \<open>
  The first row of a key after the stable sort: it has the largest count of its key, and
  among the rows of that count it is the first in the order the frame had before.
\<close>

lemma first_after_sort:
  fixes k :: "'g \<Rightarrow> 'k::linorder" and cnt :: "'g \<Rightarrow> nat" and ord :: "'g \<Rightarrow> 'o::linorder"
  assumes sel: "x \<in> set (drop_duplicates k (sort_key (\<lambda>g. (k g, - int (cnt g))) xs))"
    and srt: "sorted (map ord xs)"
    and y: "y \<in> set xs" "k y = k x"
  shows "cnt y \<le> cnt x" and "cnt y = cnt x \<Longrightarrow> ord x \<le> ord y"
proof -
  let ?g = "\<lambda>g. (k g, - int (cnt g))"
  let ?ys = "filter (\<lambda>y. k y = k x) xs"
  have xin: "x \<in> set xs"
    using sel set_drop_duplicates [of k "sort_key ?g xs"] by auto
  then have xys: "x \<in> set ?ys" by simp
  have yys: "y \<in> set ?ys" using y by simp
  have "hd (filter (\<lambda>y. k y = k x) (sort_key ?g xs)) = x"
    using drop_duplicates_first [OF sel] .
  then have hd: "hd (sort_key ?g ?ys) = x"
    by (simp add: filter_sort)
  have ne: "sort_key ?g ?ys \<noteq> []"
    using xys by (metis empty_iff list.set(1) set_sort)
  have "?g (hd (sort_key ?g ?ys)) \<le> ?g y"
    by (rule sorted_hd_least) (use yys in simp_all)
  with hd y show "cnt y \<le> cnt x"
    by (simp add: less_eq_prod_def)
  assume eq: "cnt y = cnt x"
  let ?zs = "filter (\<lambda>z. ?g z = ?g x) ?ys"
  have "hd (filter (\<lambda>z. ?g z = ?g x) (sort_key ?g ?ys)) = x"
    using hd_filter_self [OF ne, of "\<lambda>z. ?g z = ?g x"] hd by simp
  then have hdz: "hd ?zs = x"
    by (simp only: sort_key_stable)
  have "sorted (map ord ?zs)"
    using srt by (simp add: sorted_filter)
  moreover have "y \<in> set ?zs" using y eq by simp
  ultimately have "ord (hd ?zs) \<le> ord y"
    by (rule sorted_hd_least)
  with hdz show "ord x \<le> ord y" by simp
qed

lemma set_dropna: "set (dropna ks) = {k. Some k \<in> set ks}"
  unfolding dropna_def by (induction ks) auto

lemma count_dropna: "count_list (dropna ks) k = count_list ks (Some k)"
  unfolding dropna_def by (induction ks) auto

lemma groupby_size_keys:
  "sorted (map fst (groupby_size ks))" "distinct (map fst (groupby_size ks))"
  "set (map fst (groupby_size ks)) = {k. Some k \<in> set ks}"
  by (simp_all add: groupby_size_def Let_def comp_def set_dropna del: set_map)

lemma count_list_pos: "x \<in> set xs \<Longrightarrow> 0 < count_list xs x"
  using count_list_0_iff [of xs x] by simp

lemma groupby_size_count:
  "g \<in> set (groupby_size ks) \<Longrightarrow> snd g = count_list ks (Some (fst g)) \<and> 0 < snd g"
  by (auto simp: groupby_size_def Let_def count_dropna set_dropna count_list_pos)

lemma groupby_size_mem:
  "Some k \<in> set ks \<Longrightarrow> (k, count_list ks (Some k)) \<in> set (groupby_size ks)"
  by (simp add: groupby_size_def Let_def count_dropna set_dropna image_iff)

lemma count_domain_key: "count_list (map domain_key df) (Some (d, c)) = group_count df d c"
  by (induction df) (auto simp: group_count_def domain_key_def split: option.splits cell.splits)

lemma count_name_key:
  "count_list (map (\<lambda>c. Some (lower c, c)) (map (\<lambda>r. strip (astype_str (Company_Name r))) df))
     (Some (n, c)) = (if n = lower c then spelling_count df c else 0)"
  by (induction df) (auto simp: spelling_count_def)

lemma domain_stats_alt:
  "domain_stats df = map (mk_stat (groupby_size (map domain_key df))) (groupby_size (map domain_key df))"
  by (simp add: domain_stats_def Let_def mk_stat_def)

lemma mk_stat_sel [simp]:
  "stat_domain (mk_stat stats g) = fst (fst g)"
  "stat_company (mk_stat stats g) = snd (fst g)"
  "stat_count (mk_stat stats g) = snd g"
  by (simp_all add: mk_stat_def)

lemma domain_stats_sorted:
  "sorted (map (\<lambda>s. (stat_domain s, stat_company s)) (domain_stats df))"
  using groupby_size_keys(1) [of "map domain_key df"]
  by (simp add: domain_stats_alt comp_def)

lemma domain_stats_count:
  "s \<in> set (domain_stats df) \<Longrightarrow>
     stat_count s = group_count df (stat_domain s) (stat_company s) \<and> 0 < stat_count s"
  using groupby_size_count [of _ "map domain_key df"]
  by (auto simp: domain_stats_alt count_domain_key [symmetric])

lemma domain_stats_mem:
  assumes "0 < group_count df d c"
  shows "\<exists>s \<in> set (domain_stats df). stat_domain s = d \<and> stat_company s = c
           \<and> stat_count s = group_count df d c"
proof -
  from assms have "Some (d, c) \<in> set (map domain_key df)"
    using count_list_0_iff [of "map domain_key df" "Some (d, c)"]
    by (simp add: count_domain_key)
  then have "((d, c), group_count df d c) \<in> set (groupby_size (map domain_key df))"
    using groupby_size_mem [of "(d, c)" "map domain_key df"] by (simp add: count_domain_key)
  then have "mk_stat (groupby_size (map domain_key df)) ((d, c), group_count df d c)
               \<in> set (domain_stats df)"
    by (simp add: domain_stats_alt)
  then show ?thesis by force
qed

lemma dominant_selected:
  assumes "(d, c, sh) \<in> set (find_dominant_company_per_domain df)"
  obtains s where
    "s \<in> set (drop_duplicates stat_domain
            (sort_key (\<lambda>s. (stat_domain s, - int (stat_count s))) (domain_stats df)))"
    "s \<in> set (domain_stats df)" "stat_domain s = d" "stat_company s = c" "share s = sh"
proof -
  from assms obtain s where
    s: "s \<in> set (drop_duplicates stat_domain
            (sort_key (\<lambda>s. (stat_domain s, - int (stat_count s))) (domain_stats df)))"
       "stat_domain s = d" "stat_company s = c" "share s = sh"
    by (auto simp: find_dominant_company_per_domain_def)
  moreover have "s \<in> set (domain_stats df)"
    using s(1) set_drop_duplicates by fastforce
  ultimately show ?thesis using that by blast
qed

lemma dominant_is_largest:
  assumes "(d, c, sh) \<in> set (find_dominant_company_per_domain df)"
  shows "0 < group_count df d c"
    and "group_count df d c' \<le> group_count df d c"
    and "group_count df d c' = group_count df d c \<Longrightarrow> c \<le> c'"
proof -
  from assms obtain s where
    sel: "s \<in> set (drop_duplicates stat_domain
            (sort_key (\<lambda>s. (stat_domain s, - int (stat_count s))) (domain_stats df)))"
    and mem: "s \<in> set (domain_stats df)"
    and s: "stat_domain s = d" "stat_company s = c"
    by (rule dominant_selected)
  from domain_stats_count [OF mem] s
  have cnt: "stat_count s = group_count df d c" and pos: "0 < group_count df d c" by simp_all
  show "0 < group_count df d c" by (rule pos)
  have *: "group_count df d c' \<le> group_count df d c
           \<and> (group_count df d c' = group_count df d c \<longrightarrow> c \<le> c')"
  proof (cases "0 < group_count df d c'")
    case False
    with pos show ?thesis by simp
  next
    case True
    from domain_stats_mem [OF True] obtain y where
      y: "y \<in> set (domain_stats df)" "stat_domain y = d" "stat_company y = c'"
         "stat_count y = group_count df d c'" by blast
    have ky: "stat_domain y = stat_domain s" using y s by simp
    from first_after_sort(1) [OF sel domain_stats_sorted y(1) ky]
    have le: "group_count df d c' \<le> group_count df d c" using y cnt by simp
    have "c \<le> c'" if "group_count df d c' = group_count df d c"
    proof -
      from that have "stat_count y = stat_count s" using y cnt by simp
      from first_after_sort(2) [OF sel domain_stats_sorted y(1) ky this]
      show ?thesis using y s by (simp add: less_eq_prod_def)
    qed
    with le show ?thesis by blast
  qed
  from * show "group_count df d c' \<le> group_count df d c" by blast
  from * show "group_count df d c' = group_count df d c \<Longrightarrow> c \<le> c'" by blast
qed

lemma name_stats_sorted: "sorted (map fst (name_stats df))"
  by (simp add: name_stats_def Let_def groupby_size_keys(1))

lemma name_stats_count:
  "g \<in> set (name_stats df) \<Longrightarrow>
     fst (fst g) = lower (snd (fst g)) \<and> snd g = spelling_count df (snd (fst g)) \<and> 0 < snd g"
proof -
  assume g: "g \<in> set (name_stats df)"
  let ?ks = "map (\<lambda>c. Some (lower c, c)) (map (\<lambda>r. strip (astype_str (Company_Name r))) df)"
  from g have g': "g \<in> set (groupby_size ?ks)" by (simp add: name_stats_def Let_def)
  from groupby_size_count [OF g']
  have c: "snd g = count_list ?ks (Some (fst g))" and pos: "0 < snd g" by simp_all
  have "count_list ?ks (Some (fst (fst g), snd (fst g))) =
          (if fst (fst g) = lower (snd (fst g)) then spelling_count df (snd (fst g)) else 0)"
    by (rule count_name_key)
  with c pos show ?thesis by (auto split: if_splits)
qed

lemma name_stats_mem:
  assumes "0 < spelling_count df c"
  shows "((lower c, c), spelling_count df c) \<in> set (name_stats df)"
proof -
  let ?ks = "map (\<lambda>c. Some (lower c, c)) (map (\<lambda>r. strip (astype_str (Company_Name r))) df)"
  have cnt: "count_list ?ks (Some (lower c, c)) = spelling_count df c"
    using count_name_key [of df "lower c" c] by simp
  with assms have "Some (lower c, c) \<in> set ?ks"
    using count_list_0_iff [of ?ks "Some (lower c, c)"] by simp
  from groupby_size_mem [OF this] cnt show ?thesis
    by (simp add: name_stats_def Let_def)
qed

lemma canonical_is_most_frequent:
  assumes "(n, c) \<in> set (find_canonical_company_by_name df)"
  shows "n = lower c" and "0 < spelling_count df c"
    and "lower c' = n \<Longrightarrow> spelling_count df c' \<le> spelling_count df c"
    and "lower c' = n \<Longrightarrow> spelling_count df c' = spelling_count df c \<Longrightarrow> c \<le> c'"
proof -
  let ?S = "drop_duplicates (\<lambda>g. fst (fst g))
              (sort_key (\<lambda>g. (fst (fst g), - int (snd g))) (name_stats df))"
  from assms obtain g where sel: "g \<in> set ?S" and g: "fst g = (n, c)"
    by (auto simp: find_canonical_company_by_name_def)
  have mem: "g \<in> set (name_stats df)"
    using sel set_drop_duplicates by fastforce
  from name_stats_count [OF mem] g
  have n: "n = lower c" and cnt: "snd g = spelling_count df c" and pos: "0 < spelling_count df c"
    by simp_all
  show "n = lower c" by (rule n)
  show "0 < spelling_count df c" by (rule pos)
  have *: "spelling_count df c' \<le> spelling_count df c
           \<and> (spelling_count df c' = spelling_count df c \<longrightarrow> c \<le> c')" if c': "lower c' = n"
  proof (cases "0 < spelling_count df c'")
    case False
    with pos show ?thesis by simp
  next
    case True
    let ?y = "((lower c', c'), spelling_count df c')"
    have y: "?y \<in> set (name_stats df)" by (rule name_stats_mem [OF True])
    have ky: "fst (fst ?y) = fst (fst g)" using g c' by simp
    from first_after_sort(1) [of g "\<lambda>g. fst (fst g)" snd "name_stats df" fst ?y,
        OF sel name_stats_sorted y ky]
    have le: "spelling_count df c' \<le> spelling_count df c" using cnt by simp
    have "c \<le> c'" if "spelling_count df c' = spelling_count df c"
    proof -
      from that have e: "snd ?y = snd g" using cnt by simp
      from first_after_sort(2) [of g "\<lambda>g. fst (fst g)" snd "name_stats df" fst ?y,
          OF sel name_stats_sorted y ky e]
      show ?thesis using g c' by (simp add: less_eq_prod_def)
    qed
    with le show ?thesis by blast
  qed
  from * show "lower c' = n \<Longrightarrow> spelling_count df c' \<le> spelling_count df c" by blast
  from * show "lower c' = n \<Longrightarrow> spelling_count df c' = spelling_count df c \<Longrightarrow> c \<le> c'" by blast
qed

lemma dominant_exists:
  assumes "0 < group_count df d c"
  shows "\<exists>c' sh. (d, c', sh) \<in> set (find_dominant_company_per_domain df)"
proof -
  from domain_stats_mem [OF assms] obtain s where
    "s \<in> set (domain_stats df)" "stat_domain s = d" by blast
  then have "d \<in> stat_domain ` set (sort_key (\<lambda>s. (stat_domain s, - int (stat_count s))) (domain_stats df))"
    by force
  then have "d \<in> stat_domain ` set (drop_duplicates stat_domain
       (sort_key (\<lambda>s. (stat_domain s, - int (stat_count s))) (domain_stats df)))"
    by (simp only: keys_drop_duplicates)
  then show ?thesis
    by (force simp: find_dominant_company_per_domain_def)
qed

lemma canonical_exists:
  assumes "0 < spelling_count df c"
  shows "\<exists>c'. (lower c, c') \<in> set (find_canonical_company_by_name df)"
proof -
  from name_stats_mem [OF assms]
  have "lower c \<in> (\<lambda>g. fst (fst g)) ` set (sort_key (\<lambda>g. (fst (fst g), - int (snd g))) (name_stats df))"
    by force
  then have "lower c \<in> (\<lambda>g. fst (fst g)) ` set (drop_duplicates (\<lambda>g. fst (fst g))
       (sort_key (\<lambda>g. (fst (fst g), - int (snd g))) (name_stats df)))"
    by (simp only: keys_drop_duplicates)
  then obtain g where "g \<in> set (drop_duplicates (\<lambda>g. fst (fst g))
       (sort_key (\<lambda>g. (fst (fst g), - int (snd g))) (name_stats df)))" "fst (fst g) = lower c"
    by auto
  then have "fst g \<in> set (find_canonical_company_by_name df)" "fst g = (lower c, snd (fst g))"
    by (auto simp: find_canonical_company_by_name_def prod_eq_iff)
  then show ?thesis by metis
qed













lemma tie_table_resolved:
  "Company_Name (hd tie_table) = Str ''acme''
   \<and> group_count (map derive tie_table) ''acme.com'' ''acme'' = 1
   \<and> group_count (map derive tie_table) ''acme.com'' ''ACME'' = 1
   \<and> find_dominant_company_per_domain (map derive tie_table) = [(''acme.com'', ''ACME'', 1 / 2)]
   \<and> spelling_count tie_table ''acme'' = 1
   \<and> spelling_count tie_table ''ACME'' = 1
   \<and> find_canonical_company_by_name tie_table = [(''acme'', ''ACME'')]"
  by code_simp

text \<open>
  Claim C5, as stated, fails: with two groups of equal count the resolvers do not choose
  the group met first in the source. Of "acme" (first row) and "ACME" (second row), one
  row each, both resolvers choose "ACME".
\<close>

theorem tie_break_encounter_order_counterexample:
  "Company_Name (hd tie_table) = Str ''acme''
   \<and> group_count (map derive tie_table) ''acme.com'' ''acme''
       = group_count (map derive tie_table) ''acme.com'' ''ACME''
   \<and> map (\<lambda>a. fst (snd a)) (find_dominant_company_per_domain (map derive tie_table)) = [''ACME'']
   \<and> spelling_count tie_table ''acme'' = spelling_count tie_table ''ACME''
   \<and> map snd (find_canonical_company_by_name tie_table) = [''ACME'']"
  by (simp add: tie_table_resolved)

text \<open>
  Claim C5, amended. In both resolvers the chosen group has the largest count of its
  domain (of its normalized name), and among the groups of that largest count it is the
  one whose company name is least in string order: the group-by lists the groups in
  ascending order of the key, and the stable sort on descending count keeps that order
  among equal counts. The order of the rows in the source plays no part.
\<close>

theorem tie_break_least_name:
  "((d, c, sh) \<in> set (find_dominant_company_per_domain df) \<longrightarrow>
      0 < group_count df d c
      \<and> (\<forall>c'. group_count df d c' \<le> group_count df d c
              \<and> (group_count df d c' = group_count df d c \<longrightarrow> c \<le> c')))
   \<and> ((n, v) \<in> set (find_canonical_company_by_name tbl) \<longrightarrow>
      n = lower v \<and> 0 < spelling_count tbl v
      \<and> (\<forall>v'. lower v' = n \<longrightarrow>
             spelling_count tbl v' \<le> spelling_count tbl v
             \<and> (spelling_count tbl v' = spelling_count tbl v \<longrightarrow> v \<le> v')))"
  using dominant_is_largest [of d c sh df] canonical_is_most_frequent [of n v tbl]
  by blast

theorem tie_break_least_name_witness:
  "(''acme.com'', ''ACME'', 1 / 2) \<in> set (find_dominant_company_per_domain (map derive tie_table))
   \<and> group_count (map derive tie_table) ''acme.com'' ''acme''
       = group_count (map derive tie_table) ''acme.com'' ''ACME''
   \<and> ''ACME'' \<le> ''acme''
   \<and> (''acme'', ''ACME'') \<in> set (find_canonical_company_by_name tie_table)
   \<and> lower ''acme'' = ''acme''
   \<and> spelling_count tie_table ''acme'' = spelling_count tie_table ''ACME''"
proof -
  note ev = tie_table_resolved
  have l: "lower ''acme'' = ''acme''" by code_simp
  have m1: "(''acme.com'', ''ACME'', 1 / 2) \<in> set (find_dominant_company_per_domain (map derive tie_table))"
    and m2: "(''acme'', ''ACME'') \<in> set (find_canonical_company_by_name tie_table)"
    using ev by simp_all
  from tie_break_least_name [of "''acme.com''" "''ACME''" "1 / 2" "map derive tie_table"
      "''acme''" "''ACME''" tie_table] m1 m2 ev l
  show ?thesis by simp
qed

section \<open>Untrimmed and missing company names\<close>

lemma name_stats_map:
  "(\<And>x. Company_Name (f x) = Company_Name x) \<Longrightarrow> name_stats (map f df) = name_stats df"
  by (simp add: name_stats_def comp_def)

lemma find_canonical_map:
  "(\<And>x. Company_Name (f x) = Company_Name x) \<Longrightarrow>
     find_canonical_company_by_name (map f df) = find_canonical_company_by_name df"
  by (simp add: find_canonical_company_by_name_def name_stats_map)

lemma company_counts_eq: "count_list (map company_clean (map derive df)) c = spelling_count df c"
  by (induction df) (auto simp: spelling_count_def derive_def)

lemma mark_suspects_row:
  assumes "r \<in> set (mark_suspects df P)"
  obtains x row where "x \<in> set df"
    "r = add_verdict row (classify P (spelling_count df) row)"
    "Email row = Email x" "Company_Name row = Company_Name x"
    "domain row = extract_domain (Email x)"
    "company_clean row = strip (astype_str (Company_Name x))"
    "company_norm row = lower (strip (astype_str (Company_Name x)))"
    "canonical_company row =
       map_option snd (find (\<lambda>a. fst a = company_norm row) (find_canonical_company_by_name df))"
    "dominant_company row =
       map_option (\<lambda>a. fst (snd a))
         (find (\<lambda>a. Some (fst a) = domain row) (find_dominant_company_per_domain (map derive df)))"
    "dominant_share row =
       map_option (\<lambda>a. snd (snd a))
         (find (\<lambda>a. Some (fst a) = domain row) (find_dominant_company_per_domain (map derive df)))"
proof -
  have cc: "count_list (map company_clean (map derive df)) = spelling_count df"
    by (rule ext) (rule company_counts_eq)
  have can: "find_canonical_company_by_name
               (map (\<lambda>l. add_dominant l (find (\<lambda>a. Some (fst a) = domain l)
                      (find_dominant_company_per_domain (map derive df)))) (map derive df))
             = find_canonical_company_by_name df"
    unfolding map_map by (rule find_canonical_map) (simp add: add_dominant_def derive_def)
  from assms show ?thesis
    unfolding mark_suspects_map Let_def cc can
    by (auto intro!: that simp: add_canonical_def add_dominant_def derive_def)
qed

lemma nan_text: "strip (astype_str NaN) = ''nan''" "lower ''nan'' = ''nan''"
  by code_simp+

lemma find_Some_mem: "find Q xs = Some a \<Longrightarrow> a \<in> set xs \<and> Q a"
  by (induction xs) (auto split: if_splits)

lemma classify_prospects_singleton:
  "(Not_in_prospects \<in> set (reasons (classify P cnt row))
      \<longleftrightarrow> P \<noteq> {} \<and> company_clean row \<notin> P)
   \<and> (Appears_once \<in> set (reasons (classify P cnt row))
      \<longleftrightarrow> cnt (company_clean row) = 1)"
  by (simp add: check_defs split: option.splits)

text \<open>
  Claim C2. The resolver groups by the raw column \<open>Company Name\<close>, not by the
  trimmed name that \<open>mark_suspects\<close> compares against: for two rows of company
  " Acme" on one domain the dominant company is " Acme", untrimmed, so both rows are
  flagged as differing from the dominant company of their own domain, and the suggestion
  is the untrimmed name.
\<close>

theorem untrimmed_dominant_company:
  "find_dominant_company_per_domain (map derive untrimmed_table) = [(''acme.com'', '' Acme'', 1)]
   \<and> strip '' Acme'' = ''Acme''
   \<and> map summary (mark_suspects untrimmed_table {}) =
       [(''Acme'', Some ''acme.com'', Some '' Acme'', Some 1, Some ''Acme'', True,
         [Differs_from_dominant ''acme.com'' '' Acme'' 1], Some '' Acme''),
        (''Acme'', Some ''acme.com'', Some '' Acme'', Some 1, Some ''Acme'', True,
         [Differs_from_dominant ''acme.com'' '' Acme'' 1], Some '' Acme'')]"
  by code_simp

text \<open>
  Claim C10. A record whose company name is missing is not counted by the
  dominant-company resolver, which groups on the raw column where the group-by drops
  missing keys, and not on the coerced name as the canonical-name resolver does. Two such
  records and one "Acme" record on one domain give the single group "Acme" with count 1
  of total 1: "nan", with two of the three records, is not dominant, and the two records
  are flagged against "Acme" with a share of 1 that leaves them out.
\<close>

theorem missing_company_not_in_dominant_pass:
  "map Company_Name nan_domain_table = [NaN, NaN, Str ''Acme'']
   \<and> map (\<lambda>s. (stat_domain s, stat_company s, stat_count s, total_domain s))
         (domain_stats (map derive nan_domain_table)) = [(''acme.com'', ''Acme'', 1, 1)]
   \<and> find_dominant_company_per_domain (map derive nan_domain_table) = [(''acme.com'', ''Acme'', 1)]
   \<and> map summary (mark_suspects nan_domain_table {}) =
       [(''nan'', Some ''acme.com'', Some ''Acme'', Some 1, Some ''nan'', True,
         [Differs_from_dominant ''acme.com'' ''Acme'' 1], Some ''Acme''),
        (''nan'', Some ''acme.com'', Some ''Acme'', Some 1, Some ''nan'', True,
         [Differs_from_dominant ''acme.com'' ''Acme'' 1], Some ''Acme''),
        (''Acme'', Some ''acme.com'', Some ''Acme'', Some 1, Some ''Acme'', True,
         [Appears_once], None)]"
  by code_simp

text \<open>
  What holds for a record whose company name is missing: its trimmed and its normalized
  name are the text "nan", it is counted in the frequency table and in the group
  ("nan", "nan") of the canonical-name resolver, which therefore has a canonical
  assignment for "nan", and the allow-list, singleton and canonical-spelling checks are
  applied to the name "nan".
\<close>

lemma missing_company_is_nan:
  assumes "r \<in> set (mark_suspects df P)" and "Company_Name r = NaN"
  shows "company_clean r = ''nan'' \<and> company_norm r = ''nan''
       \<and> 0 < spelling_count df ''nan''
       \<and> ((''nan'', ''nan''), spelling_count df ''nan'') \<in> set (name_stats df)
       \<and> (\<exists>cc. canonical_company r = Some cc \<and> lower cc = ''nan''
                \<and> (''nan'', cc) \<in> set (find_canonical_company_by_name df)
                \<and> filter from_canonical (suspect_reasons r) =
                     (if cc \<noteq> ''nan'' then [Differs_from_canonical cc] else []))
       \<and> (Not_in_prospects \<in> set (suspect_reasons r) \<longleftrightarrow> P \<noteq> {} \<and> ''nan'' \<notin> P)
       \<and> (Appears_once \<in> set (suspect_reasons r) \<longleftrightarrow> spelling_count df ''nan'' = 1)"
proof -
  from assms(1) obtain x row where x: "x \<in> set df"
    and r: "r = add_verdict row (classify P (spelling_count df) row)"
    and cn: "Company_Name row = Company_Name x"
    and clean: "company_clean row = strip (astype_str (Company_Name x))"
    and norm: "company_norm row = lower (strip (astype_str (Company_Name x)))"
    and can: "canonical_company row =
       map_option snd (find (\<lambda>a. fst a = company_norm row) (find_canonical_company_by_name df))"
    by (rule mark_suspects_row)
  from assms(2) r cn have nan: "Company_Name x = NaN" by simp
  have c1: "company_clean row = ''nan''" and c2: "company_norm row = ''nan''"
    using clean norm nan by (simp_all add: nan_text)
  have "strip (astype_str (Company_Name x)) = ''nan''"
    using nan by (simp add: nan_text)
  with x have "x \<in> set (filter (\<lambda>r. strip (astype_str (Company_Name r)) = ''nan'') df)"
    by simp
  then have pos: "0 < spelling_count df ''nan''"
    unfolding spelling_count_def by (rule length_pos_if_in_set)
  have grp: "((''nan'', ''nan''), spelling_count df ''nan'') \<in> set (name_stats df)"
    using name_stats_mem [OF pos] by (simp add: nan_text)
  from canonical_exists [OF pos] obtain c' where
    "(''nan'', c') \<in> set (find_canonical_company_by_name df)" by (auto simp: nan_text)
  then have "\<exists>a. a \<in> set (find_canonical_company_by_name df) \<and> fst a = ''nan''"
    by (metis fst_conv)
  then have "find (\<lambda>a. fst a = ''nan'') (find_canonical_company_by_name df) \<noteq> None"
    by (simp add: find_None_iff)
  then obtain a where a: "find (\<lambda>a. fst a = ''nan'') (find_canonical_company_by_name df) = Some a"
    by blast
  from find_Some_mem [OF a] have am: "a \<in> set (find_canonical_company_by_name df)" "fst a = ''nan''"
    by simp_all
  then have am': "(''nan'', snd a) \<in> set (find_canonical_company_by_name df)"
    by (metis prod.collapse)
  from canonical_is_most_frequent(1) [OF am'] have low: "lower (snd a) = ''nan''" by simp
  have cc: "canonical_company row = Some (snd a)" using can c2 a by simp
  have h4: "filter from_canonical (reasons (classify P (spelling_count df) row)) =
              (if snd a \<noteq> ''nan'' then [Differs_from_canonical (snd a)] else [])"
    using classify_canonical [of P "spelling_count df" row] cc c1 by auto
  from classify_prospects_singleton [of P "spelling_count df" row] c1 c2 pos grp cc low am' h4
  show ?thesis unfolding r by simp
qed

lemma nan_table_marked:
  "map summary (mark_suspects nan_table {''Acme''}) =
     [(''nan'', None, None, None, Some ''nan'', True, [Not_in_prospects], None),
      (''nan'', None, None, None, Some ''nan'', True, [Not_in_prospects], None),
      (''NaN'', None, None, None, Some ''nan'', True,
       [Not_in_prospects, Appears_once, Differs_from_canonical ''nan''], Some ''nan'')]"
  "map Company_Name (mark_suspects nan_table {''Acme''}) = [NaN, NaN, Str ''NaN'']"
  "find_canonical_company_by_name nan_table = [(''nan'', ''nan'')]"
  "spelling_count nan_table ''nan'' = 2"
  by code_simp+

text \<open>An example: "nan" flagged, canonical and suggested.\<close>

lemma missing_company_example:
  "mark_suspects nan_table {''Acme''} ! 0 \<in> set (mark_suspects nan_table {''Acme''})
   \<and> Company_Name (mark_suspects nan_table {''Acme''} ! 0) = NaN
   \<and> company_clean (mark_suspects nan_table {''Acme''} ! 0) = ''nan''
   \<and> company_norm (mark_suspects nan_table {''Acme''} ! 0) = ''nan''
   \<and> spelling_count nan_table ''nan'' = 2
   \<and> canonical_company (mark_suspects nan_table {''Acme''} ! 0) = Some ''nan''
   \<and> is_suspect (mark_suspects nan_table {''Acme''} ! 0)
   \<and> Not_in_prospects \<in> set (suspect_reasons (mark_suspects nan_table {''Acme''} ! 0))
   \<and> Appears_once \<notin> set (suspect_reasons (mark_suspects nan_table {''Acme''} ! 0))
   \<and> suggested_company (mark_suspects nan_table {''Acme''} ! 2) = Some ''nan''"
proof -
  note r0 = nth_summary [OF nan_table_marked(1), of 0, simplified, unfolded summary_def]
  note r2 = nth_summary [OF nan_table_marked(1), of 2, simplified, unfolded summary_def]
  have m: "mark_suspects nan_table {''Acme''} ! 0 \<in> set (mark_suspects nan_table {''Acme''})"
    using r0 by simp
  have "map Company_Name (mark_suspects nan_table {''Acme''}) ! 0 = NaN"
    by (simp add: nan_table_marked(2))
  then have n: "Company_Name (mark_suspects nan_table {''Acme''} ! 0) = NaN"
    using r0 by (metis nth_map nth_mem length_map length_pos_if_in_set)
  from missing_company_is_nan [OF m n] m n r0 r2 nan_table_marked(4)
  show ?thesis by simp
qed

section \<open>Properties of the command-line program\<close>

lemma index_of_None: "index_of x ys = None \<longleftrightarrow> x \<notin> set ys"
  by (induction ys) auto

lemma contacts_present:
  assumes "''Email'' \<in> set (columns df)" and "''Company Name'' \<in> set (columns df)"
  shows "\<exists>rs. contacts df = Inr rs \<and> length rs = length (rows df)"
proof -
  from assms obtain i j where "index_of ''Email'' (columns df) = Some i"
    "index_of ''Company Name'' (columns df) = Some j"
    using index_of_None [of "''Email''" "columns df"]
      index_of_None [of "''Company Name''" "columns df"] by auto
  then show ?thesis by (simp add: contacts_def)
qed

lemma with_suffix_pac: "with_suffix e base ''pac.csv'' = Inl (Invalid_suffix ''pac.csv'')"
  by (simp add: with_suffix_def)

lemma main_missing:
  assumes "path_exists e (input_csv a)"
    and "''Email'' \<notin> set (columns (read_csv e (input_csv a)))
         \<or> ''Company Name'' \<notin> set (columns (read_csv e (input_csv a)))"
  shows "main e a =
           ([Printed_reading (input_csv a)],
            Inl (Missing_columns ({''Email'', ''Company Name''}
                                   - set (columns (read_csv e (input_csv a))))))"
  using assms by (auto simp: main_def Let_def)

lemma main_writes:
  assumes "Wrote p t \<in> set (fst (main e a))"
  shows "\<exists>rs P. contacts (read_csv e (input_csv a)) = Inr rs
           \<and> (t = Marked (mark_suspects rs P)
                \<or> t = Marked (filter is_suspect (mark_suspects rs P))
                \<or> t = Corrected (map pac_row (mark_suspects rs P)))"
proof -
  obtain ev2 res where lp: "load_prospect_companies e (empresas_prospectadas a) = (ev2, res)"
    by (cases "load_prospect_companies e (empresas_prospectadas a)")
  have nw: "Wrote p t \<notin> set ev2"
    using lp by (auto simp: load_prospect_companies_def Let_def
        split: option.splits if_splits list.splits sum.splits)
  from assms lp nw show ?thesis
    by (auto simp: main_def Let_def with_suffix_pac split: if_splits sum.splits)
qed

text \<open>
  The third output is never written: its path is asked for with the suffix \<open>pac.csv\<close>,
  which has no leading dot, so every run that gets that far ends there with an error.
\<close>

lemma main_stops_before_pac: "snd (main e a) \<noteq> Inr ()"
  by (simp add: main_def Let_def with_suffix_pac split: prod.splits sum.splits)

lemma contacts_length: "contacts df = Inr rs \<Longrightarrow> length rs = length (rows df)"
  by (auto simp: contacts_def split: option.splits)

text \<open>
  Claim C9. If the input table lacks the email column or the company-name column, the
  run ends with the error about the missing columns, having printed that it reads the
  input and having written no file; the check comes before the allow-list is loaded and
  before \<open>mark_suspects\<close> is called. Whatever a run writes is the whole classified
  table, one row for each row of the input, or the suspects or the corrected rows taken
  from it.
\<close>

theorem main_all_or_nothing:
  "(path_exists e (input_csv a)
      \<and> (''Email'' \<notin> set (columns (read_csv e (input_csv a)))
           \<or> ''Company Name'' \<notin> set (columns (read_csv e (input_csv a))))
    \<longrightarrow> main e a =
          ([Printed_reading (input_csv a)],
           Inl (Missing_columns ({''Email'', ''Company Name''}
                                  - set (columns (read_csv e (input_csv a))))))
        \<and> filter wrote (fst (main e a)) = [])
   \<and> (Wrote p t \<in> set (fst (main e a)) \<longrightarrow>
        (\<exists>rs P. contacts (read_csv e (input_csv a)) = Inr rs
           \<and> length rs = length (rows (read_csv e (input_csv a)))
           \<and> map strip_outputs (mark_suspects rs P) = rs
           \<and> (t = Marked (mark_suspects rs P)
                \<or> t = Marked (filter is_suspect (mark_suspects rs P))
                \<or> t = Corrected (map pac_row (mark_suspects rs P)))))"
proof (intro conjI impI)
  assume h: "path_exists e (input_csv a)
      \<and> (''Email'' \<notin> set (columns (read_csv e (input_csv a)))
           \<or> ''Company Name'' \<notin> set (columns (read_csv e (input_csv a))))"
  then show m: "main e a =
          ([Printed_reading (input_csv a)],
           Inl (Missing_columns ({''Email'', ''Company Name''}
                                  - set (columns (read_csv e (input_csv a))))))"
    using main_missing [of e a] by blast
  show "filter wrote (fst (main e a)) = []"
    by (simp add: m wrote_def)
next
  assume "Wrote p t \<in> set (fst (main e a))"
  from main_writes [OF this] obtain rs P where
    rs: "contacts (read_csv e (input_csv a)) = Inr rs"
    and t: "t = Marked (mark_suspects rs P)
                \<or> t = Marked (filter is_suspect (mark_suspects rs P))
                \<or> t = Corrected (map pac_row (mark_suspects rs P))"
    by blast
  from rs t contacts_length [OF rs] strip_outputs_mark_suspects [of rs P]
  show "\<exists>rs P. contacts (read_csv e (input_csv a)) = Inr rs
           \<and> length rs = length (rows (read_csv e (input_csv a)))
           \<and> map strip_outputs (mark_suspects rs P) = rs
           \<and> (t = Marked (mark_suspects rs P)
                \<or> t = Marked (filter is_suspect (mark_suspects rs P))
                \<or> t = Corrected (map pac_row (mark_suspects rs P)))"
    by blast
qed

lemma example_contacts:
  "contacts \<lparr>columns = [''Email'', ''Company Name''], rows = [[Str ''ann@acme.com'', Str ''Acme'']]\<rparr> =
     Inr [\<lparr>Email = Str ''ann@acme.com'', Company_Name = Str ''Acme'', \<dots> = []\<rparr>]"
  by (simp add: contacts_def cell_at_def)

lemma example_run:
  "main (example_env [''Email'', ''Company Name'']) example_args =
     ([Printed_reading ''in.csv'',
       Wrote ''apollo.contatos_tratados.csv''
         (Marked (mark_suspects
            [\<lparr>Email = Str ''ann@acme.com'', Company_Name = Str ''Acme'', \<dots> = []\<rparr>] {})),
       Wrote ''apollo.contatos_suspeitos_isolados.csv''
         (Marked (filter is_suspect (mark_suspects
            [\<lparr>Email = Str ''ann@acme.com'', Company_Name = Str ''Acme'', \<dots> = []\<rparr>] {})))],
      Inl (Invalid_suffix ''pac.csv''))"
  by (simp add: main_def Let_def example_contacts with_suffix_def load_prospect_companies_def
      example_env_def example_args_def)

theorem main_all_or_nothing_witness:
  "path_exists (example_env [''Email'', ''Company'']) (input_csv example_args)
   \<and> ''Company Name'' \<notin> set (columns (read_csv (example_env [''Email'', ''Company''])
                                         (input_csv example_args)))
   \<and> main (example_env [''Email'', ''Company'']) example_args =
        ([Printed_reading ''in.csv''], Inl (Missing_columns {''Company Name''}))
   \<and> Wrote ''apollo.contatos_tratados.csv''
         (Marked (mark_suspects
            [\<lparr>Email = Str ''ann@acme.com'', Company_Name = Str ''Acme'', \<dots> = []\<rparr>] {}))
       \<in> set (fst (main (example_env [''Email'', ''Company Name'']) example_args))
   \<and> (\<exists>rs P. contacts (read_csv (example_env [''Email'', ''Company Name''])
                                (input_csv example_args)) = Inr rs
          \<and> length rs = 1
          \<and> map strip_outputs (mark_suspects rs P) = rs)"
proof -
  have ex: "path_exists (example_env [''Email'', ''Company'']) (input_csv example_args)"
    by (simp add: example_env_def example_args_def)
  have nc: "''Company Name'' \<notin> set (columns (read_csv (example_env [''Email'', ''Company''])
                                         (input_csv example_args)))"
    by (simp add: example_env_def)
  have w: "Wrote ''apollo.contatos_tratados.csv''
         (Marked (mark_suspects
            [\<lparr>Email = Str ''ann@acme.com'', Company_Name = Str ''Acme'', \<dots> = []\<rparr>] {}))
       \<in> set (fst (main (example_env [''Email'', ''Company Name'']) example_args))"
    by (simp add: example_run)
  have d: "{''Email'', ''Company Name''} - set [''Email'', ''Company''] = {''Company Name''}"
    by auto
  from main_all_or_nothing [of "example_env [''Email'', ''Company'']" example_args,
      THEN conjunct1] ex nc
  have 1: "main (example_env [''Email'', ''Company'']) example_args =
        ([Printed_reading ''in.csv''], Inl (Missing_columns {''Company Name''}))"
    using d by (simp add: example_env_def example_args_def)
  from main_all_or_nothing [of "example_env [''Email'', ''Company Name'']" example_args,
      THEN conjunct2, rule_format, OF w]
  have 2: "\<exists>rs P. contacts (read_csv (example_env [''Email'', ''Company Name''])
                                (input_csv example_args)) = Inr rs
          \<and> length rs = 1
          \<and> map strip_outputs (mark_suspects rs P) = rs"
    by (auto simp: example_env_def)
  from ex nc 1 w 2 show ?thesis by blast
qed

end
